theory Spec2Isabelle
  imports Complex_Main
begin

section \<open>Seed growth inversion (fatiando/potential/harvester.py)\<close>

text \<open>
  A shallow embedding of the planting algorithm of \<^verbatim>\<open>harvester.py\<close>: the neighbour
  search on the flattened 3D grid, the prism data module, the concentration regularizer,
  the two juries, the seed constructors and the growth loop.

  Conventions of the embedding.
  \<^item> Python integers are \<open>int\<close>; Python and numpy floating point numbers are \<open>real\<close>.
  \<^item> A Python \<open>dict\<close> of physical properties is an association list of (name, value)
    pairs; an \<open>{'index': i, 'props': p}\<close> dictionary is the record \<open>element\<close>.
  \<^item> Exceptions are values of \<open>py_error\<close> on the left of a sum.
  \<^item> The mesh class (\<^verbatim>\<open>fatiando.mesher.ddd.PrismMesh\<close>) is not part of the sources, so a
    mesh is a record of what the code reads from it: \<open>shape\<close>, \<open>size\<close>, \<open>dims\<close>,
    \<open>bounds\<close> and the item access \<open>mesh[i]\<close>, which is \<open>None\<close> for a masked cell.
  \<^item> Names that Isabelle does not accept are changed as little as possible: a leading
    underscore is dropped (\<open>_standard_judge\<close> is \<open>standard_judge\<close>), \<open>size\<close> is \<open>msize\<close>.
\<close>

subsection \<open>Data\<close>

datatype py_error = ValueError | ZeroDivisionError | IndexError | TypeError | KeyError

type_synonym props = "(string \<times> real) list"

record element =
  index :: int
  props :: props

text \<open>A frontier entry: an element that also carries \<open>n['neighbors']\<close>, its neighbours
  in the full (diagonal) sense, as \<open>grow\<close> stores them.\<close>

record candidate = element +
  neighbors :: "element list"

record prism =
  x1 :: real
  x2 :: real
  y1 :: real
  y2 :: real
  z1 :: real
  z2 :: real

record mesh =
  nz :: int
  ny :: int
  nx :: int
  msize :: int
  dx :: real
  dy :: real
  dz :: real
  bounds :: "real \<times> real \<times> real \<times> real \<times> real \<times> real"
  cell_at :: "int \<Rightarrow> prism option"

subsection \<open>Neighbour search\<close>

text \<open>
  \<open>find_neighbors\<close>, statement by statement. The six face neighbours are computed as
  optional indexes, the diagonal ones are appended when \<open>full\<close> holds, and the indexes
  that are \<open>None\<close> or whose cell is masked are dropped. Python's \<open>%\<close> raises
  \<open>ZeroDivisionError\<close> for a zero modulus.
\<close>

definition face_indexes :: "mesh \<Rightarrow> int \<Rightarrow> bool \<Rightarrow> bool \<Rightarrow> int option list" where
  "face_indexes m n up down =
    (let above' = (if up \<and> n - nx m * ny m > 0 then Some (n - nx m * ny m) else None);
         bellow = (if down \<and> n + nx m * ny m < msize m then Some (n + nx m * ny m) else None);
         front = (if n mod nx m < nx m - 1 then Some (n + 1) else None);
         back = (if n mod nx m \<noteq> 0 then Some (n - 1) else None);
         left' = (if n mod (nx m * ny m) < nx m * (ny m - 1) then Some (n + nx m) else None);
         right' = (if n mod (nx m * ny m) \<ge> nx m then Some (n - nx m) else None)
     in [above', bellow, front, back, left', right'])"

fun both :: "int option \<Rightarrow> int option \<Rightarrow> (int \<Rightarrow> int \<Rightarrow> int) \<Rightarrow> int option" where
  "both (Some a) (Some b) f = Some (f a b)"
| "both _ _ f = None"

fun all3 ::
    "int option \<Rightarrow> int option \<Rightarrow> int option \<Rightarrow> (int \<Rightarrow> int) \<Rightarrow> int option" where
  "all3 (Some a) (Some b) (Some c) f = Some (f a)"
| "all3 _ _ _ f = None"

text \<open>The twenty conditional \<open>append\<close>s of the \<open>full\<close> branch, in the source's order. Each
  appended index is computed from \<open>left\<close>, \<open>right\<close>, \<open>above\<close> or \<open>bellow\<close>, which the
  condition has tested not to be \<open>None\<close>.\<close>

definition diagonal_indexes :: "mesh \<Rightarrow> int option list \<Rightarrow> int option list" where
  "diagonal_indexes m faces =
    (case faces of
       [above', bellow, front, back, left', right'] \<Rightarrow>
         (let w = nx m in
          [both left' front (\<lambda>l f. l + 1),
           both right' front (\<lambda>r f. r + 1),
           both left' back (\<lambda>l b. l - 1),
           both right' back (\<lambda>r b. r - 1),
           both above' left' (\<lambda>a l. a + w),
           both above' right' (\<lambda>a r. a - w),
           both above' front (\<lambda>a f. a + 1),
           both above' back (\<lambda>a b. a - 1),
           all3 above' front left' (\<lambda>a. a + w + 1),
           all3 above' front right' (\<lambda>a. a - w + 1),
           all3 above' back left' (\<lambda>a. a + w - 1),
           all3 above' back right' (\<lambda>a. a - w - 1),
           both bellow left' (\<lambda>b l. b + w),
           both bellow right' (\<lambda>b r. b - w),
           both bellow front (\<lambda>b f. b + 1),
           both bellow back (\<lambda>b k. b - 1),
           all3 bellow front left' (\<lambda>b. b + w + 1),
           all3 bellow front right' (\<lambda>b. b - w + 1),
           all3 bellow back left' (\<lambda>b. b + w - 1),
           all3 bellow back right' (\<lambda>b. b - w - 1)])
     | _ \<Rightarrow> [])"

fun not_none :: "int option list \<Rightarrow> int list" where
  "not_none [] = []"
| "not_none (None # xs) = not_none xs"
| "not_none (Some i # xs) = i # not_none xs"

definition neighbor_indexes :: "mesh \<Rightarrow> int \<Rightarrow> bool \<Rightarrow> bool \<Rightarrow> bool \<Rightarrow> int list" where
  "neighbor_indexes m n full up down =
    (let faces = face_indexes m n up down;
         indexes = (if full then faces @ diagonal_indexes m faces else faces)
     in filter (\<lambda>i. cell_at m i \<noteq> None) (not_none indexes))"

definition find_neighbors ::
    "mesh \<Rightarrow> 'a element_scheme \<Rightarrow> bool \<Rightarrow> bool \<Rightarrow> bool \<Rightarrow> py_error + element list" where
  "find_neighbors m neighbor full up down =
    (if nx m = 0 \<or> nx m * ny m = 0 then Inl ZeroDivisionError
     else Inr (map (\<lambda>i. \<lparr>index = i, props = props neighbor\<rparr>)
                   (neighbor_indexes m (index neighbor) full up down)))"

text \<open>A column of two cells, one above the other, none masked.\<close>

definition a_prism :: prism where
  "a_prism = \<lparr>x1 = 0, x2 = 1, y1 = 0, y2 = 1, z1 = 0, z2 = 1\<rparr>"

definition column2 :: mesh where
  "column2 = \<lparr>nz = 2, ny = 1, nx = 1, msize = 2, dx = 1, dy = 1, dz = 1,
     bounds = (0, 1, 0, 1, 0, 2),
     cell_at = (\<lambda>i. if 0 \<le> i \<and> i < 2 then Some a_prism else None)\<rparr>"

subsection \<open>The prism data module\<close>

text \<open>
  Data vectors (numpy arrays over the observation points of one module) are lists of
  reals, added and subtracted component by component. The observed data, the predicted
  data and the effect of a prism are all arrays over the same observation points.
  \<open>numpy.linalg.norm\<close> of order 1 is the sum of the absolute values and of order 2 the
  square root of the sum of the squares.
\<close>

type_synonym vector = "real list"

definition vadd :: "vector \<Rightarrow> vector \<Rightarrow> vector" where
  "vadd u v = map2 (+) u v"

definition vsub :: "vector \<Rightarrow> vector \<Rightarrow> vector" where
  "vsub u v = map2 (-) u v"

definition vscale :: "real \<Rightarrow> vector \<Rightarrow> vector" where
  "vscale a v = map ((*) a) v"

definition vnorm1 :: "vector \<Rightarrow> real" where
  "vnorm1 v = sum_list (map abs v)"

definition vnorm :: "int \<Rightarrow> vector \<Rightarrow> real" where
  "vnorm ord v = (if ord = 1 then vnorm1 v else sqrt (sum_list (map (\<lambda>x. x * x) v)))"

text \<open>
  The attributes of a \<open>DMPrism\<close> that the methods read or write. \<open>misfit\<close> is an
  attribute as well: \<open>use_shape\<close> replaces the method by one of the shape-of-anomaly
  functions. The observation points and the mesh are only read by \<open>_effect_of_prism\<close>,
  which the derived classes implement with the closed formulas of \<open>_prism\<close> (not part of
  the sources): it is the parameter \<open>eff\<close> of \<open>update\<close> and \<open>testdrive\<close>. The \<open>effect\<close>
  dictionary is a map from cell indexes to vectors.
\<close>

record dmprism =
  data :: vector
  predicted :: vector
  norm_order :: int
  misfit :: "vector \<Rightarrow> real"
  effect :: "int \<Rightarrow> vector option"
  prop_type :: "string option"

definition standard_misfit :: "real \<Rightarrow> int \<Rightarrow> vector \<Rightarrow> vector \<Rightarrow> real" where
  "standard_misfit weight ord dat pred = weight * vnorm ord (vsub dat pred)"

definition shape_of_anomaly_l2 :: "real \<Rightarrow> vector \<Rightarrow> vector \<Rightarrow> real" where
  "shape_of_anomaly_l2 data_l2norm dat pred =
    (let alpha = sum_list (map2 (*) dat pred) / data_l2norm
     in vnorm 2 (vsub (vscale alpha dat) pred))"

definition shape_of_anomaly_l1 :: "vector \<Rightarrow> vector \<Rightarrow> real" where
  "shape_of_anomaly_l1 dat pred =
    (let alpha = Max (set (map2 (/) pred dat))
     in vnorm 1 (vsub (vscale alpha dat) pred))"

text \<open>\<open>DMPrism.__init__\<close>: the norm must be 1 or 2, the predicted data start at zero, the
  weight of the standard misfit is the reciprocal of the norm of the data.\<close>

definition DMPrism_init :: "vector \<Rightarrow> bool \<Rightarrow> int \<Rightarrow> py_error + dmprism" where
  "DMPrism_init dat use_shape ord =
    (if ord \<noteq> 1 \<and> ord \<noteq> 2 then Inl ValueError
     else Inr \<lparr>data = dat,
               predicted = map (\<lambda>d. 0) dat,
               norm_order = ord,
               misfit = (if use_shape then
                           (if ord = 2 then shape_of_anomaly_l2 ((vnorm 2 dat)\<^sup>2) dat
                            else shape_of_anomaly_l1 dat)
                         else standard_misfit (1 / vnorm ord dat) ord dat),
               effect = Map.empty,
               prop_type = None\<rparr>)"

definition DMPrismGz_init :: "vector \<Rightarrow> bool \<Rightarrow> int \<Rightarrow> py_error + dmprism" where
  "DMPrismGz_init dat use_shape ord =
    (case DMPrism_init dat use_shape ord of
       Inl e \<Rightarrow> Inl e
     | Inr dm \<Rightarrow> Inr (dm\<lparr>prop_type := Some ''density''\<rparr>))"

text \<open>\<open>self.prop_type in props\<close>.\<close>

definition has_prop :: "string option \<Rightarrow> props \<Rightarrow> bool" where
  "has_prop pt ps = (case pt of None \<Rightarrow> False | Some p \<Rightarrow> p \<in> set (map fst ps))"

text \<open>\<open>DMPrism.update\<close>: the effect of the element is taken from the cache, or computed
  and stored there first; it is added to the predicted data and deleted from the cache.\<close>

definition update ::
    "(int \<Rightarrow> props \<Rightarrow> vector) \<Rightarrow> dmprism \<Rightarrow> 'a element_scheme \<Rightarrow> dmprism" where
  "update eff dm element =
    (if has_prop (prop_type dm) (props element) then
       (let cache = (if effect dm (index element) = None
                     then (effect dm)(index element \<mapsto> eff (index element) (props element))
                     else effect dm)
        in case cache (index element) of
             None \<Rightarrow> dm
           | Some e \<Rightarrow> dm\<lparr>predicted := vadd (predicted dm) e,
                          effect := cache(index element := None)\<rparr>)
     else dm)"

text \<open>\<open>DMPrism.testdrive\<close> returns the misfit and leaves the module as the call leaves
  it: the only attribute written is the cache of effects.\<close>

definition testdrive ::
    "(int \<Rightarrow> props \<Rightarrow> vector) \<Rightarrow> dmprism \<Rightarrow> 'a element_scheme \<Rightarrow> real \<times> dmprism" where
  "testdrive eff dm element =
    (if \<not> has_prop (prop_type dm) (props element) then (misfit dm (predicted dm), dm)
     else
       (let cache = (if effect dm (index element) = None
                     then (effect dm)(index element \<mapsto> eff (index element) (props element))
                     else effect dm)
        in case cache (index element) of
             None \<Rightarrow> (misfit dm (predicted dm), dm)
           | Some e \<Rightarrow> (misfit dm (vadd (predicted dm) e), dm\<lparr>effect := cache\<rparr>)))"

text \<open>A gravity module with two observations, and an effect function for the examples.\<close>

definition gz_module :: dmprism where
  "gz_module = \<lparr>data = [3, 4], predicted = [1, 0], norm_order = 1,
     misfit = standard_misfit (1 / 7) 1 [3, 4], effect = Map.empty,
     prop_type = Some ''density''\<rparr>"

definition unit_effect :: "int \<Rightarrow> props \<Rightarrow> vector" where
  "unit_effect i ps = [1, 1]"

subsection \<open>The concentration regularizer\<close>

text \<open>
  The attributes of a \<open>ConcentrationRegularizer\<close>. The exponent \<open>power\<close> is a natural
  number (the docstring: usually between 3 and 7). \<open>dists\<close> is the dictionary of cached
  distances, keyed by the index of the neighbour alone.
\<close>

record regularizer =
  mu :: real
  rpower :: nat
  rmesh :: mesh
  reg :: real
  timeline :: "real list"
  dists :: "int \<Rightarrow> real option"
  weight :: real

definition ConcentrationRegularizer_init ::
    "mesh \<Rightarrow> real \<Rightarrow> nat \<Rightarrow> bool \<Rightarrow> regularizer" where
  "ConcentrationRegularizer_init m mu0 power0 weight0 =
    \<lparr>mu = mu0, rpower = power0, rmesh = m, reg = 0, timeline = [0], dists = Map.empty,
     weight = (if weight0
               then 1 / ((of_int (nx m) * dx m + of_int (ny m) * dy m + of_int (nz m) * dz m) / 3)
               else 1)\<rparr>"

text \<open>The default arguments of the constructor: \<open>mu=10**(-4), power=3, weight=True\<close>.\<close>

definition ConcentrationRegularizer_default :: "mesh \<Rightarrow> regularizer" where
  "ConcentrationRegularizer_default m = ConcentrationRegularizer_init m (1 / 10 ^ 4) 3 True"

definition calc_dist :: "prism \<Rightarrow> prism \<Rightarrow> real" where
  "calc_dist cell1 cell2 =
    (let ddx = \<bar>x1 cell1 - x1 cell2\<bar>;
         ddy = \<bar>y1 cell1 - y1 cell2\<bar>;
         ddz = \<bar>z1 cell1 - z1 cell2\<bar>
     in sqrt (ddx\<^sup>2 + ddy\<^sup>2 + ddz\<^sup>2))"

text \<open>
  The distance that \<open>__call__\<close> uses for a neighbour: the cached one when the index of
  the neighbour is a key of \<open>dists\<close>, otherwise the distance between the cells of the
  neighbour and of the seed. Subscripting a masked cell (\<open>None\<close>) raises \<open>TypeError\<close>.
\<close>

definition cached_dist :: "regularizer \<Rightarrow> int \<Rightarrow> int \<Rightarrow> real option" where
  "cached_dist rg n s =
    (case dists rg n of
       Some d \<Rightarrow> Some d
     | None \<Rightarrow>
        (case cell_at (rmesh rg) n of
           None \<Rightarrow> None
         | Some c1 \<Rightarrow> (case cell_at (rmesh rg) s of
                         None \<Rightarrow> None
                       | Some c2 \<Rightarrow> Some (calc_dist c1 c2))))"

definition regularizer_call ::
    "regularizer \<Rightarrow> 'a element_scheme \<Rightarrow> 'b element_scheme \<Rightarrow> py_error + real \<times> regularizer" where
  "regularizer_call rg neighbor seed =
    (case cached_dist rg (index neighbor) (index seed) of
       None \<Rightarrow> Inl TypeError
     | Some d \<Rightarrow>
         Inr (reg rg + weight rg * mu rg * d ^ rpower rg,
              rg\<lparr>dists := (dists rg)(index neighbor \<mapsto> d)\<rparr>))"

definition regularizer_update ::
    "regularizer \<Rightarrow> 'a element_scheme \<Rightarrow> py_error + regularizer" where
  "regularizer_update rg neighbor =
    (case dists rg (index neighbor) of
       None \<Rightarrow> Inl KeyError
     | Some d \<Rightarrow>
         (let r = reg rg + weight rg * mu rg * d ^ rpower rg
          in Inr (rg\<lparr>reg := r, timeline := timeline rg @ [r],
                     dists := (dists rg)(index neighbor := None)\<rparr>)))"

text \<open>The regularizer called on each neighbour of a list in turn, as a list comprehension
  or a generator does.\<close>

fun regularizer_calls ::
    "regularizer \<Rightarrow> 'a element_scheme list \<Rightarrow> 'b element_scheme
       \<Rightarrow> py_error + real list \<times> regularizer" where
  "regularizer_calls rg [] seed = Inr ([], rg)"
| "regularizer_calls rg (n # ns) seed =
    (case regularizer_call rg n seed of
       Inl e \<Rightarrow> Inl e
     | Inr (v, rg') \<Rightarrow>
        (case regularizer_calls rg' ns seed of
           Inl e \<Rightarrow> Inl e
         | Inr (vs, rg'') \<Rightarrow> Inr (v # vs, rg'')))"

text \<open>A row of three unit cells along x, and a regularizer on it with \<open>mu = 1\<close> and
  \<open>power = 3\<close>: as constructed, and as it is after the cell 1 was evaluated for the seed
  at cell 0 and accepted.\<close>

definition row_cell :: "int \<Rightarrow> prism" where
  "row_cell i = \<lparr>x1 = of_int i, x2 = of_int i + 1, y1 = 0, y2 = 1, z1 = 0, z2 = 1\<rparr>"

definition row3 :: mesh where
  "row3 = \<lparr>nz = 1, ny = 1, nx = 3, msize = 3, dx = 1, dy = 1, dz = 1,
     bounds = (0, 3, 0, 1, 0, 1),
     cell_at = (\<lambda>i. if 0 \<le> i \<and> i < 3 then Some (row_cell i) else None)\<rparr>"

definition reg_fresh :: regularizer where
  "reg_fresh = ConcentrationRegularizer_init row3 1 3 True"

definition reg_after_one :: regularizer where
  "reg_after_one = \<lparr>mu = 1, rpower = 3, rmesh = row3, reg = 3 / 5, timeline = [0, 3 / 5],
     dists = Map.empty, weight = 3 / 5\<rparr>"

text \<open>The distance between the centres of two cells, for comparison with \<open>calc_dist\<close>.\<close>

definition center_dist :: "prism \<Rightarrow> prism \<Rightarrow> real" where
  "center_dist c1 c2 =
    sqrt (((x1 c1 + x2 c1) / 2 - (x1 c2 + x2 c2) / 2)\<^sup>2
        + ((y1 c1 + y2 c1) / 2 - (y1 c2 + y2 c2) / 2)\<^sup>2
        + ((z1 c1 + z2 c1) / 2 - (z1 c2 + z2 c2) / 2)\<^sup>2)"

definition same_dims :: "prism \<Rightarrow> prism \<Rightarrow> bool" where
  "same_dims c1 c2 =
    (x2 c1 - x1 c1 = x2 c2 - x1 c2 \<and> y2 c1 - y1 c1 = y2 c2 - y1 c2
     \<and> z2 c1 - z1 c1 = z2 c2 - z1 c2)"

subsection \<open>Choosing the best neighbour\<close>

text \<open>
  \<open>numpy.argmin\<close> returns the index of the first occurrence of the minimum. It is only
  called on lists that are not empty.
\<close>

fun argmin :: "real list \<Rightarrow> nat" where
  "argmin [] = 0"
| "argmin [x] = 0"
| "argmin (x # y # ys) = (let j = argmin (y # ys) in if x \<le> (y # ys) ! j then 0 else Suc j)"

text \<open>
  The test \<open>abs(m - misfit)/misfit >= thresh\<close>. The misfits are numpy floats, whose
  division by zero does not raise: a nonzero numerator gives an infinity, which passes
  the test, and \<open>0/0\<close> gives a NaN, which fails every comparison.
\<close>

definition rel_change_ge :: "real \<Rightarrow> real \<Rightarrow> real \<Rightarrow> bool" where
  "rel_change_ge m misfit0 thresh =
    (if misfit0 = 0 then m \<noteq> 0 else \<bar>m - misfit0\<bar> / misfit0 \<ge> thresh)"

text \<open>
  \<open>SeedPrism._standard_judge\<close>, with the \<open>delta\<close> of the seed as first argument. The result
  is the triple \<open>[best, goals[best], misfits[best]]\<close>, or \<open>None\<close>.
\<close>

definition standard_judge ::
    "real \<Rightarrow> real list \<Rightarrow> real list \<Rightarrow> real \<Rightarrow> real
       \<Rightarrow> py_error + (nat \<times> real \<times> real) option" where
  "standard_judge delta goals misfits goal misfit0 =
    (let decreased = map fst (filter (\<lambda>(i, m). rel_change_ge m misfit0 delta)
                                      (enumerate 0 misfits))
     in if decreased = [] then Inr None
        else if list_ex (\<lambda>i. i \<ge> length goals) decreased then Inl IndexError
        else (let best = decreased ! argmin (map (\<lambda>i. goals ! i) decreased)
              in Inr (Some (best, goals ! best, misfits ! best))))"

subsection \<open>The estimate and the neighbourhoods\<close>

text \<open>
  The estimate is a dictionary from property names to \<open>SparseList\<close>s of the size of the
  mesh (\<open>utils.SparseList\<close> is not part of the sources): a value for every property and
  cell index, zero where nothing was set. \<open>grow\<close> creates an entry for every property of
  every seed before anything is read.
\<close>

type_synonym estimate = "string \<Rightarrow> int \<Rightarrow> real"

definition in_estimate :: "estimate \<Rightarrow> 'a element_scheme \<Rightarrow> bool" where
  "in_estimate est neighbor = list_ex (\<lambda>p. est p (index neighbor) \<noteq> 0) (map fst (props neighbor))"

definition free_neighbors :: "estimate \<Rightarrow> 'a element_scheme list \<Rightarrow> 'a element_scheme list" where
  "free_neighbors est ns = filter (\<lambda>n. \<not> in_estimate est n) ns"

definition in_tha_hood :: "'a element_scheme list list \<Rightarrow> 'b element_scheme \<Rightarrow> bool" where
  "in_tha_hood neighborhood neighbor =
    list_ex (\<lambda>ns. list_ex (\<lambda>tmp. index neighbor = index tmp
                               \<and> list_ex (\<lambda>p. p \<in> set (map fst (props tmp)))
                                          (map fst (props neighbor))) ns)
            neighborhood"

definition not_neighbors ::
    "'a element_scheme list list \<Rightarrow> 'b element_scheme list \<Rightarrow> 'b element_scheme list" where
  "not_neighbors neighborhood ns = filter (\<lambda>n. \<not> in_tha_hood neighborhood n) ns"


subsection \<open>The juries\<close>

text \<open>
  The data modules that the juries and \<open>grow\<close> use have the methods \<open>new_predicted\<close>,
  \<open>misfit\<close>, \<open>shape_of_anomaly\<close> and \<open>update(element, mesh)\<close> and the attribute
  \<open>predicted\<close>; no class of the sources has them (\<open>DMPrism\<close> above is the later interface).
  They are parameters of the model: a record of functions over a type \<open>'d\<close> of module
  states, and the list of the states.
\<close>

record 'd dm_ops =
  new_predicted :: "'d \<Rightarrow> candidate \<Rightarrow> vector"
  dm_misfit :: "'d \<Rightarrow> vector \<Rightarrow> real"
  dm_shape_of_anomaly :: "'d \<Rightarrow> vector \<Rightarrow> real"
  dm_update :: "'d \<Rightarrow> element \<Rightarrow> 'd"
  dm_predicted :: "'d \<Rightarrow> vector"

text \<open>\<open>sum(dm.misfit(p) for dm, p in zip(datamods, pred[i]))\<close>, where \<open>pred[i]\<close> is the list
  of \<open>dm.new_predicted(n, mesh)\<close> over the data modules.\<close>

definition total_misfit :: "'d dm_ops \<Rightarrow> 'd list \<Rightarrow> candidate \<Rightarrow> real" where
  "total_misfit ops datamods n =
    sum_list (map (\<lambda>dm. dm_misfit ops dm (new_predicted ops dm n)) datamods)"


text \<open>
  A jury is called with the seed, its neighbours, the estimate, the data modules, the
  current value of the goal, the mesh, the iteration and the number of seeds. The
  regularizer is captured by the closure and changed by the call, so it is passed in and
  returned. The result is the pair \<open>(index in neighbors, value)\<close>, or \<open>None\<close>.
\<close>

type_synonym 'd jury =
  "regularizer option \<Rightarrow> element \<Rightarrow> candidate list \<Rightarrow> estimate \<Rightarrow> 'd list \<Rightarrow> real \<Rightarrow> mesh
     \<Rightarrow> int \<Rightarrow> int \<Rightarrow> py_error + (nat \<times> real) option \<times> regularizer option"

definition standard_jury :: "'d dm_ops \<Rightarrow> real \<Rightarrow> 'd jury" where
  "standard_jury ops thresh regularizer seed neighbours est datamods misfit0 m it nseeds =
    (let misfits = map (\<lambda>(i, n). (i, total_misfit ops datamods n)) (enumerate 0 neighbours);
         decreased = filter (\<lambda>(i, v). v < misfit0 \<and> rel_change_ge v misfit0 thresh) misfits
     in if decreased = [] then Inr (None, regularizer)
        else
          (case regularizer of
             None \<Rightarrow> Inr (Some (decreased ! argmin (map snd decreased)), None)
           | Some rg \<Rightarrow>
              (case regularizer_calls rg (map (\<lambda>(i, v). neighbours ! i) decreased) seed of
                 Inl e \<Rightarrow> Inl e
               | Inr (rs, rg') \<Rightarrow>
                  (let goals = map2 (\<lambda>(i, v) r. v + r) decreased rs;
                       best = decreased ! argmin goals
                   in case regularizer_update rg' (neighbours ! fst best) of
                        Inl e \<Rightarrow> Inl e
                      | Inr rg'' \<Rightarrow> Inr (Some best, Some rg'')))))"




text \<open>
  A data module for the examples: one module state is its predicted vector, the effect
  of an element is given by a function of its index and properties, and both misfits are
  the l1 norm of the residuals.
\<close>

definition l1_ops :: "vector \<Rightarrow> (int \<Rightarrow> props \<Rightarrow> vector) \<Rightarrow> vector dm_ops" where
  "l1_ops obs eff =
    \<lparr>new_predicted = (\<lambda>d n. vadd d (eff (index n) (props n))),
     dm_misfit = (\<lambda>d v. vnorm1 (vsub obs v)),
     dm_shape_of_anomaly = (\<lambda>d v. vnorm1 (vsub obs v)),
     dm_update = (\<lambda>d e. vadd d (eff (index e) (props e))),
     dm_predicted = (\<lambda>d. d)\<rparr>"

text \<open>Every property value of the element counts once at the single observation point.\<close>

definition props_effect :: "int \<Rightarrow> props \<Rightarrow> vector" where
  "props_effect i ps = [sum_list (map snd ps)]"

subsection \<open>The growth loop\<close>

text \<open>\<open>for p in e['props']: estimate[p][e['index']] = e['props'][p]\<close>.\<close>

definition set_props :: "estimate \<Rightarrow> 'a element_scheme \<Rightarrow> estimate" where
  "set_props est e = fold (\<lambda>(p, v) es. es(p := (es p)(index e := v))) (props e) est"

text \<open>\<open>for n in neighbors: n['neighbors'] = find_neighbors(n, mesh, full=True)\<close>.\<close>

fun attach_neighbors :: "mesh \<Rightarrow> element list \<Rightarrow> py_error + candidate list" where
  "attach_neighbors m [] = Inr []"
| "attach_neighbors m (n # ns) =
    (case find_neighbors m n True True True of
       Inl e \<Rightarrow> Inl e
     | Inr around \<Rightarrow>
        (case attach_neighbors m ns of
           Inl e \<Rightarrow> Inl e
         | Inr cs \<Rightarrow> Inr (\<lparr>index = index n, props = props n, neighbors = around\<rparr> # cs)))"

text \<open>The neighbours of an element that enter a frontier: its face neighbours that are
  free in the estimate and in no frontier yet.\<close>

definition new_neighbors ::
    "mesh \<Rightarrow> estimate \<Rightarrow> candidate list list \<Rightarrow> 'a element_scheme \<Rightarrow> py_error + candidate list" where
  "new_neighbors m est hood e =
    (case find_neighbors m e False True True of
       Inl er \<Rightarrow> Inl er
     | Inr ns \<Rightarrow> attach_neighbors m (not_neighbors hood (free_neighbors est ns)))"

text \<open>
  The state of the generator \<open>grow\<close>: the four entries of the change set it yields and the
  regularizer of the jury. \<open>accretions\<close> is the record of the yields after the first: for
  each one, the position of the seed in the list and the neighbour \<open>best\<close> that was added.
\<close>

record 'd grow_state =
  estimate :: estimate
  neighborhood :: "candidate list list"
  goal :: real
  datamods :: "'d list"
  jury_regularizer :: "regularizer option"
  accretions :: "(nat \<times> candidate) list"

fun init_neighborhood ::
    "mesh \<Rightarrow> estimate \<Rightarrow> element list \<Rightarrow> candidate list list \<Rightarrow> py_error + candidate list list" where
  "init_neighborhood m est [] hood = Inr hood"
| "init_neighborhood m est (s # ss) hood =
    (case new_neighbors m est hood s of
       Inl e \<Rightarrow> Inl e
     | Inr ns \<Rightarrow> init_neighborhood m est ss (hood @ [ns]))"

text \<open>The statements of \<open>grow\<close> up to the first \<open>yield\<close>.\<close>

definition grow_init ::
    "'d dm_ops \<Rightarrow> mesh \<Rightarrow> element list \<Rightarrow> 'd list \<Rightarrow> regularizer option
       \<Rightarrow> py_error + 'd grow_state" where
  "grow_init ops m seeds dms rg =
    (let est = fold (\<lambda>s es. set_props es s) seeds (\<lambda>p i. 0);
         dms' = fold (\<lambda>s ds. map (\<lambda>d. dm_update ops d s) ds) seeds dms
     in case init_neighborhood m est seeds [] of
          Inl e \<Rightarrow> Inl e
        | Inr hood \<Rightarrow>
            Inr \<lparr>estimate = est, neighborhood = hood,
                 goal = sum_list (map (\<lambda>d. dm_misfit ops d (dm_predicted ops d)) dms'),
                 datamods = dms', jury_regularizer = rg, accretions = []\<rparr>)"

text \<open>
  The body of the inner loop for the seed at position \<open>k\<close>: the jury is asked, and when
  it chooses a neighbour, that one is added to the estimate and to the data modules,
  taken out of the frontier of the seed, and its new neighbours are appended there. The
  boolean is whether the seed grew.
\<close>

definition seed_turn ::
    "'d dm_ops \<Rightarrow> 'd jury \<Rightarrow> mesh \<Rightarrow> element list \<Rightarrow> int \<Rightarrow> 'd grow_state \<Rightarrow> nat
       \<Rightarrow> py_error + 'd grow_state \<times> bool" where
  "seed_turn ops jury m seeds it st k =
    (let nbs = neighborhood st ! k in
     case jury (jury_regularizer st) (seeds ! k) nbs (estimate st) (datamods st) (goal st) m it
            (int (length seeds)) of
       Inl e \<Rightarrow> Inl e
     | Inr (None, rg) \<Rightarrow> Inr (st\<lparr>jury_regularizer := rg\<rparr>, False)
     | Inr (Some (j, g), rg) \<Rightarrow>
        (if j \<ge> length nbs then Inl IndexError
         else
          (let best = nbs ! j;
               est = set_props (estimate st) best;
               dms = map (\<lambda>d. dm_update ops d (element.truncate best)) (datamods st);
               rest = take j nbs @ drop (Suc j) nbs;
               hood = (neighborhood st)[k := rest]
           in case new_neighbors m est hood best of
                Inl e \<Rightarrow> Inl e
              | Inr newneighbors \<Rightarrow>
                  Inr (st\<lparr>estimate := est, neighborhood := hood[k := rest @ newneighbors],
                          goal := g, datamods := dms, jury_regularizer := rg,
                          accretions := accretions st @ [(k, best)]\<rparr>, True))))"

text \<open>The inner loop over the seeds, from the positions \<open>ks\<close>, and the outer loop over the
  iterations \<open>its\<close>, left when no seed grew in a pass.\<close>

fun grow_pass ::
    "'d dm_ops \<Rightarrow> 'd jury \<Rightarrow> mesh \<Rightarrow> element list \<Rightarrow> int \<Rightarrow> nat list \<Rightarrow> 'd grow_state \<times> bool
       \<Rightarrow> py_error + 'd grow_state \<times> bool" where
  "grow_pass ops jury m seeds it [] (st, onegrew) = Inr (st, onegrew)"
| "grow_pass ops jury m seeds it (k # ks) (st, onegrew) =
    (case seed_turn ops jury m seeds it st k of
       Inl e \<Rightarrow> Inl e
     | Inr (st', grew) \<Rightarrow> grow_pass ops jury m seeds it ks (st', onegrew \<or> grew))"

fun grow_passes ::
    "'d dm_ops \<Rightarrow> 'd jury \<Rightarrow> mesh \<Rightarrow> element list \<Rightarrow> int list \<Rightarrow> 'd grow_state
       \<Rightarrow> py_error + 'd grow_state" where
  "grow_passes ops jury m seeds [] st = Inr st"
| "grow_passes ops jury m seeds (it # its) st =
    (case grow_pass ops jury m seeds it [0..<length seeds] (st, False) of
       Inl e \<Rightarrow> Inl e
     | Inr (st', onegrew) \<Rightarrow>
        (if onegrew then grow_passes ops jury m seeds its st' else Inr st'))"

text \<open>\<open>grow\<close>, run to its end: the iterations are \<open>xrange(mesh.size - nseeds)\<close>.\<close>

definition grow ::
    "'d dm_ops \<Rightarrow> 'd jury \<Rightarrow> mesh \<Rightarrow> element list \<Rightarrow> 'd list \<Rightarrow> regularizer option
       \<Rightarrow> py_error + 'd grow_state" where
  "grow ops jury m seeds dms rg =
    (case grow_init ops m seeds dms rg of
       Inl e \<Rightarrow> Inl e
     | Inr st \<Rightarrow>
         grow_passes ops jury m seeds
           (map int [0..<nat (msize m - int (length seeds))]) st)"

text \<open>The states that the generator goes through: the first one, and the one after the
  turn of any seed.\<close>

inductive reachable ::
    "'d dm_ops \<Rightarrow> 'd jury \<Rightarrow> mesh \<Rightarrow> element list \<Rightarrow> 'd grow_state \<Rightarrow> bool"
  for ops :: "'d dm_ops" and jury :: "'d jury" and m :: mesh and seeds :: "element list" where
  first: "grow_init ops m seeds dms rg = Inr st \<Longrightarrow> reachable ops jury m seeds st"
| turn: "reachable ops jury m seeds st \<Longrightarrow> k < length seeds
          \<Longrightarrow> seed_turn ops jury m seeds it st k = Inr (st', grew)
          \<Longrightarrow> reachable ops jury m seeds st'"

text \<open>
  What the seed at position \<open>k\<close> has committed in a state: the pairs of cell index and
  property name of the seed itself and of the neighbours it added.
\<close>

definition keys :: "'a element_scheme \<Rightarrow> string list" where
  "keys e = map fst (props e)"

definition pairs_of :: "'a element_scheme \<Rightarrow> (int \<times> string) list" where
  "pairs_of e = map (\<lambda>p. (index e, p)) (keys e)"

definition committed ::
    "element list \<Rightarrow> 'd grow_state \<Rightarrow> nat \<Rightarrow> (int \<times> string) list" where
  "committed seeds st k =
    pairs_of (seeds ! k)
    @ concat (map (\<lambda>(k', c). pairs_of c) (filter (\<lambda>(k', c). k' = k) (accretions st)))"

text \<open>The test of \<open>sow\<close> for two seeds: the same index and a property name in common.\<close>

definition overlap :: "'a element_scheme \<Rightarrow> 'b element_scheme \<Rightarrow> bool" where
  "overlap a b = (index a = index b \<and> list_ex (\<lambda>p. p \<in> set (keys a)) (keys b))"

text \<open>
  A seed or neighbour none of whose property values is zero: the estimate marks a cell
  as free for a property by the value zero.
\<close>

definition nonzero :: "'a element_scheme \<Rightarrow> bool" where
  "nonzero e = list_all (\<lambda>(p, v). v \<noteq> 0) (props e)"

text \<open>
  The invariant of the loop: every seed has a frontier, no two entries of the frontiers
  have a cell and a property name in common, every entry is free in the estimate and
  carries no zero value, every pair of cell and property name that a seed has committed
  is set in the estimate, and the pairs committed by different seeds are different.
\<close>

definition grow_inv :: "element list \<Rightarrow> 'd grow_state \<Rightarrow> bool" where
  "grow_inv seeds st =
    (length (neighborhood st) = length seeds
     \<and> sorted_wrt (\<lambda>a b. \<not> overlap a b) (concat (neighborhood st))
     \<and> (\<forall>n\<in>set (concat (neighborhood st)). nonzero n \<and> \<not> in_estimate (estimate st) n)
     \<and> (\<forall>k<length seeds. \<forall>(c, p)\<in>set (committed seeds st k). estimate st p c \<noteq> 0)
     \<and> (\<forall>k<length seeds. \<forall>k'<length seeds. k \<noteq> k'
           \<longrightarrow> set (committed seeds st k) \<inter> set (committed seeds st k') = {}))"

subsection \<open>Sowing the seeds\<close>
















subsection \<open>A run with two seeds of different properties\<close>

text \<open>
  The row of three cells with a density seed at cell 0 and a magnetization seed at
  cell 2, one data module with the observation 4, where each property value of a cell
  adds to the predicted value, and the standard jury without regularizer. The states are
  the ones \<open>grow\<close> goes through: after the seeds were included, after the turn of the
  first seed and after the turn of the second.
\<close>

definition cand :: "int \<Rightarrow> props \<Rightarrow> int list \<Rightarrow> candidate" where
  "cand i ps around =
    \<lparr>index = i, props = ps, neighbors = map (\<lambda>j. \<lparr>index = j, props = ps\<rparr>) around\<rparr>"

definition dens :: props where
  "dens = [(''density'', 1)]"

definition magn :: props where
  "magn = [(''magnetization'', 1)]"

definition seed_d :: element where
  "seed_d = \<lparr>index = 0, props = dens\<rparr>"

definition seed_m :: element where
  "seed_m = \<lparr>index = 2, props = magn\<rparr>"

definition ex_ops :: "vector dm_ops" where
  "ex_ops = l1_ops [4] props_effect"

definition ex_jury :: "vector jury" where
  "ex_jury = standard_jury ex_ops (1 / 10000)"

definition est0 :: estimate where
  "est0 = set_props (set_props (\<lambda>p i. 0) seed_d) seed_m"

definition est1 :: estimate where
  "est1 = set_props est0 (cand 1 dens [2, 0])"

definition est2 :: estimate where
  "est2 = set_props est1 (cand 1 magn [2, 0])"

definition st0 :: "vector grow_state" where
  "st0 = \<lparr>estimate = est0, neighborhood = [[cand 1 dens [2, 0]], [cand 1 magn [2, 0]]],
     goal = 2, datamods = [[2]], jury_regularizer = None, accretions = []\<rparr>"

definition st1 :: "vector grow_state" where
  "st1 = \<lparr>estimate = est1, neighborhood = [[cand 2 dens [1]], [cand 1 magn [2, 0]]],
     goal = 1, datamods = [[3]], jury_regularizer = None,
     accretions = [(0, cand 1 dens [2, 0])]\<rparr>"

definition st2 :: "vector grow_state" where
  "st2 = \<lparr>estimate = est2, neighborhood = [[cand 2 dens [1]], [cand 0 magn [1]]],
     goal = 0, datamods = [[4]], jury_regularizer = None,
     accretions = [(0, cand 1 dens [2, 0]), (Suc 0, cand 1 magn [2, 0])]\<rparr>"

subsection \<open>A run with a property value of zero\<close>

text \<open>
  The row of three cells with a seed at cell 1 whose density is zero and whose
  magnetization is 5, and a density seed at cell 0; one data module with the observation
  20 and the standard jury without regularizer. The states are the ones \<open>grow\<close> goes
  through.
\<close>

definition zero_dens :: props where
  "zero_dens = [(''density'', 0), (''magnetization'', 5)]"

definition dens3 :: props where
  "dens3 = [(''density'', 3)]"

definition seed_z :: element where
  "seed_z = \<lparr>index = 1, props = zero_dens\<rparr>"

definition seed_3 :: element where
  "seed_3 = \<lparr>index = 0, props = dens3\<rparr>"

definition z_ops :: "vector dm_ops" where
  "z_ops = l1_ops [20] props_effect"

definition z_jury :: "vector jury" where
  "z_jury = standard_jury z_ops (1 / 10000)"

definition zest0 :: estimate where
  "zest0 = set_props (set_props (\<lambda>p i. 0) seed_z) seed_3"

definition zest1 :: estimate where
  "zest1 = set_props zest0 (cand 2 zero_dens [1])"

definition zest2 :: estimate where
  "zest2 = set_props zest1 (cand 1 dens3 [2, 0])"

definition zst0 :: "vector grow_state" where
  "zst0 = \<lparr>estimate = zest0, neighborhood = [[cand 2 zero_dens [1]], [cand 1 dens3 [2, 0]]],
     goal = 12, datamods = [[8]], jury_regularizer = None, accretions = []\<rparr>"

definition zst1 :: "vector grow_state" where
  "zst1 = \<lparr>estimate = zest1, neighborhood = [[], [cand 1 dens3 [2, 0]]],
     goal = 7, datamods = [[13]], jury_regularizer = None,
     accretions = [(0, cand 2 zero_dens [1])]\<rparr>"

definition zst2 :: "vector grow_state" where
  "zst2 = \<lparr>estimate = zest2, neighborhood = [[], [cand 2 dens3 [1]]],
     goal = 4, datamods = [[16]], jury_regularizer = None,
     accretions = [(0, cand 2 zero_dens [1]), (Suc 0, cand 1 dens3 [2, 0])]\<rparr>"

section \<open>Properties\<close>

subsection \<open>Face adjacency\<close>

text \<open>
  C3. Face adjacency as \<open>find_neighbors\<close> computes it (\<open>full=False\<close>) is not symmetric
  at the first cell of the mesh: the test for the cell above is \<open>tmp > 0\<close>, so cell 0 is
  never returned as the neighbour above. In the column of two unmasked cells, cell 1 is
  a face neighbour of cell 0, and cell 0 is not a face neighbour of cell 1.
\<close>

theorem find_neighbors_asymmetric_at_cell_0:
  "find_neighbors column2 \<lparr>index = 0, props = []\<rparr> False True True
     = Inr [\<lparr>index = 1, props = []\<rparr>]
   \<and> find_neighbors column2 \<lparr>index = 1, props = []\<rparr> False True True = Inr []
   \<and> cell_at column2 0 \<noteq> None \<and> cell_at column2 1 \<noteq> None"
  by (simp add: find_neighbors_def neighbor_indexes_def face_indexes_def column2_def)

subsection \<open>The data module\<close>

lemma testdrive_predicted: "predicted (snd (testdrive eff dm e)) = predicted dm"
  by (simp add: testdrive_def Let_def split: option.splits)

lemma testdrive_again: "testdrive eff (snd (testdrive eff dm e)) e
    = (fst (testdrive eff dm e), snd (testdrive eff dm e))"
  by (auto simp: testdrive_def Let_def split: option.splits)

text \<open>
  C8. Two calls of \<open>testdrive\<close> on the same element, with nothing between them, return
  the same misfit, and the predicted data of the module are the same after each call as
  before the first.
\<close>

theorem testdrive_twice:
  "fst (testdrive eff (snd (testdrive eff dm e)) e) = fst (testdrive eff dm e)
   \<and> predicted (snd (testdrive eff dm e)) = predicted dm
   \<and> predicted (snd (testdrive eff (snd (testdrive eff dm e)) e)) = predicted dm"
  by (simp add: testdrive_again testdrive_predicted)

theorem testdrive_twice_witness:
  "fst (testdrive unit_effect gz_module \<lparr>index = 3, props = [(''density'', 1000)]\<rparr>) = 4 / 7
   \<and> fst (testdrive unit_effect
            (snd (testdrive unit_effect gz_module \<lparr>index = 3, props = [(''density'', 1000)]\<rparr>))
            \<lparr>index = 3, props = [(''density'', 1000)]\<rparr>) = 4 / 7
   \<and> predicted (snd (testdrive unit_effect gz_module
                       \<lparr>index = 3, props = [(''density'', 1000)]\<rparr>)) = [1, 0]"
proof -
  have v: "fst (testdrive unit_effect gz_module \<lparr>index = 3, props = [(''density'', 1000)]\<rparr>) = 4 / 7"
    by (simp add: testdrive_def gz_module_def unit_effect_def has_prop_def
        standard_misfit_def vnorm_def vnorm1_def vsub_def vadd_def)
  have p: "predicted gz_module = [1, 0]"
    by (simp add: gz_module_def)
  from testdrive_twice [of unit_effect gz_module "\<lparr>index = 3, props = [(''density'', 1000)]\<rparr>"] v p
  show ?thesis by simp
qed

text \<open>
  C10. When the properties of the element do not contain the property type of the data
  module, \<open>update\<close> changes nothing: the module, with its predicted data and its cache of
  effects, is as before the call.
\<close>

theorem update_without_prop_type:
  "\<not> has_prop (prop_type dm) (props e) \<Longrightarrow>
     update eff dm e = dm
     \<and> predicted (update eff dm e) = predicted dm
     \<and> effect (update eff dm e) = effect dm"
  by (simp add: update_def)

theorem update_without_prop_type_witness:
  "\<not> has_prop (prop_type gz_module) (props \<lparr>index = 3, props = [(''susceptibility'', 2)]\<rparr>)
   \<and> update unit_effect gz_module \<lparr>index = 3, props = [(''susceptibility'', 2)]\<rparr> = gz_module
   \<and> predicted (update unit_effect gz_module \<lparr>index = 3, props = [(''susceptibility'', 2)]\<rparr>) = [1, 0]"
proof -
  have h: "\<not> has_prop (prop_type gz_module) (props \<lparr>index = 3, props = [(''susceptibility'', 2)]\<rparr>)"
    by (simp add: has_prop_def gz_module_def)
  from update_without_prop_type [OF h, of unit_effect] h show ?thesis
    by (simp add: gz_module_def)
qed

subsection \<open>The regularizer\<close>

lemma calc_dist_center:
  assumes "same_dims c1 c2"
  shows "calc_dist c1 c2 = center_dist c1 c2"
proof -
  from assms have "(x1 c1 + x2 c1) / 2 - (x1 c2 + x2 c2) / 2 = x1 c1 - x1 c2"
    and "(y1 c1 + y2 c1) / 2 - (y1 c2 + y2 c2) / 2 = y1 c1 - y1 c2"
    and "(z1 c1 + z2 c1) / 2 - (z1 c2 + z2 c2) / 2 = z1 c1 - z1 c2"
    by (simp_all add: same_dims_def field_simps)
  then show ?thesis
    by (simp add: calc_dist_def center_dist_def)
qed

text \<open>
  C6, as the code has it. The call of the regularizer for a candidate and a seed whose
  cells exist returns the running total \<open>reg\<close> of the accepted scores plus
  \<open>weight * mu * d ^ power\<close>, where \<open>d\<close> is the Euclidean distance between the lower
  corners of the two cells (the distance between their centres when the cells have the
  same dimensions), provided no other distance is cached for the candidate's index;
  \<open>power\<close> defaults to 3, and \<open>weight\<close> is the reciprocal of the mean of the three
  extents \<open>nx*dx\<close>, \<open>ny*dy\<close>, \<open>nz*dz\<close> of the mesh, or 1 when weighting is off.
\<close>

theorem regularizer_call_value:
  assumes "cell_at (rmesh rg) (index n) = Some c1"
    and "cell_at (rmesh rg) (index s) = Some c2"
    and "dists rg (index n) = None \<or> dists rg (index n) = Some (calc_dist c1 c2)"
  shows "regularizer_call rg n s
           = Inr (reg rg + weight rg * mu rg * calc_dist c1 c2 ^ rpower rg,
                  rg\<lparr>dists := (dists rg)(index n \<mapsto> calc_dist c1 c2)\<rparr>)
         \<and> (same_dims c1 c2 \<longrightarrow> calc_dist c1 c2 = center_dist c1 c2)
         \<and> rpower (ConcentrationRegularizer_default m) = 3
         \<and> reg (ConcentrationRegularizer_init m mu0 p w) = 0
         \<and> weight (ConcentrationRegularizer_init m mu0 p True)
             = 1 / ((of_int (nx m) * dx m + of_int (ny m) * dy m + of_int (nz m) * dz m) / 3)
         \<and> weight (ConcentrationRegularizer_init m mu0 p False) = 1"
proof -
  from assms have "cached_dist rg (index n) (index s) = Some (calc_dist c1 c2)"
    by (auto simp: cached_dist_def)
  then have "regularizer_call rg n s
           = Inr (reg rg + weight rg * mu rg * calc_dist c1 c2 ^ rpower rg,
                  rg\<lparr>dists := (dists rg)(index n \<mapsto> calc_dist c1 c2)\<rparr>)"
    by (simp add: regularizer_call_def)
  then show ?thesis
    by (simp add: calc_dist_center ConcentrationRegularizer_default_def
        ConcentrationRegularizer_init_def)
qed

lemma row_dist_2_0: "calc_dist (row_cell 2) (row_cell 0) = 2"
  by (simp add: calc_dist_def row_cell_def)

theorem regularizer_call_value_witness:
  "regularizer_call reg_after_one \<lparr>index = 2, props = []\<rparr> \<lparr>index = 0, props = []\<rparr>
     = Inr (27 / 5, reg_after_one\<lparr>dists := [2 \<mapsto> 2]\<rparr>)
   \<and> center_dist (row_cell 2) (row_cell 0) = 2"
proof -
  have a: "cell_at (rmesh reg_after_one) (index \<lparr>index = 2, props = []\<rparr>) = Some (row_cell 2)"
    and b: "cell_at (rmesh reg_after_one) (index \<lparr>index = 0, props = []\<rparr>) = Some (row_cell 0)"
    and c: "dists reg_after_one (index \<lparr>index = 2, props = []\<rparr>) = None
            \<or> dists reg_after_one (index \<lparr>index = 2, props = []\<rparr>)
               = Some (calc_dist (row_cell 2) (row_cell 0))"
    and d: "same_dims (row_cell 2) (row_cell 0)"
    by (simp_all add: reg_after_one_def row3_def same_dims_def row_cell_def)
  from regularizer_call_value [OF a b c] d row_dist_2_0 show ?thesis
    by (simp add: reg_after_one_def)
qed

text \<open>
  C6, as the claim states it, fails. On the row of three unit cells with \<open>mu = 1\<close> and
  \<open>power = 3\<close>, the first call (candidate 1, seed 0) returns \<open>3/5\<close>; after that candidate
  was accepted, the call for the candidate 2 at distance 2 returns \<open>27/5\<close>. The claimed
  value is \<open>weight * mu * d ^ power\<close>: that is \<open>24/5\<close> with the weight of the code and 8
  with the reciprocal of the average cell dimension as weight.
\<close>

theorem regularizer_call_not_weight_mu_dist:
  "regularizer_call reg_fresh \<lparr>index = 1, props = []\<rparr> \<lparr>index = 0, props = []\<rparr>
     = Inr (3 / 5, reg_fresh\<lparr>dists := [1 \<mapsto> 1]\<rparr>)
   \<and> regularizer_update (reg_fresh\<lparr>dists := [1 \<mapsto> 1]\<rparr>) \<lparr>index = 1, props = []\<rparr>
     = Inr reg_after_one
   \<and> regularizer_call reg_after_one \<lparr>index = 2, props = []\<rparr> \<lparr>index = 0, props = []\<rparr>
     = Inr (27 / 5, reg_after_one\<lparr>dists := [2 \<mapsto> 2]\<rparr>)
   \<and> cell_at row3 2 = Some (row_cell 2) \<and> cell_at row3 0 = Some (row_cell 0)
   \<and> calc_dist (row_cell 2) (row_cell 0) = 2
   \<and> weight reg_after_one * mu reg_after_one
        * calc_dist (row_cell 2) (row_cell 0) ^ rpower reg_after_one \<noteq> 27 / 5
   \<and> 1 / ((dx row3 + dy row3 + dz row3) / 3) * mu reg_after_one
        * calc_dist (row_cell 2) (row_cell 0) ^ rpower reg_after_one \<noteq> 27 / 5"
  by (simp add: row_dist_2_0)
     (simp add: regularizer_call_def regularizer_update_def cached_dist_def reg_fresh_def
       reg_after_one_def Let_def ConcentrationRegularizer_init_def row3_def calc_dist_def row_cell_def)

subsection \<open>The standard judge of a prism seed\<close>

text \<open>
  C1. \<open>_standard_judge\<close> keeps every neighbour whose misfit differs from the current one
  by the fraction \<open>delta\<close>, also when it is larger: with the current misfit 1 and a single
  neighbour of misfit 2 it accepts the neighbour, and \<open>_harvest_solver\<close> appends the
  misfit 2 to the history after the 1.
\<close>

theorem standard_judge_accepts_increase:
  "standard_judge (1 / 10000) [2] [2] 1 1 = Inr (Some (0, 2, 2)) \<and> (1 :: real) < 2"
  by (simp add: standard_judge_def rel_change_ge_def enumerate_eq_zip)

subsection \<open>The choice of the standard policy\<close>


























lemmas ex_defs = ex_jury_def ex_ops_def l1_ops_def props_effect_def standard_jury_def
  total_misfit_def rel_change_ge_def vadd_def vsub_def vnorm1_def Let_def dens_def magn_def cand_def

lemma jury_d: "ex_jury None seed_d [cand 1 dens [2, 0]] est0 [[2]] 2 row3 0 2 = Inr (Some (0, 1), None)"
  by (simp add: ex_defs)

lemma jury_m: "ex_jury None seed_m [cand 1 magn [2, 0]] est1 [[3]] 1 row3 0 2 = Inr (Some (0, 0), None)"
  by (simp add: ex_defs)


subsection \<open>The shape jury\<close>



subsection \<open>The number of accretions\<close>

lemma row3_faces:
  "face_indexes row3 0 True True = [None, None, Some 1, None, None, None]"
  "face_indexes row3 1 True True = [None, None, Some 2, Some 0, None, None]"
  "face_indexes row3 2 True True = [None, None, None, Some 1, None, None]"
  by (simp_all add: face_indexes_def row3_def)

lemma row_diagonals:
  "not_none (diagonal_indexes m [None, None, f, b, None, None]) = []"
  by (simp add: diagonal_indexes_def Let_def)

lemma not_none_append: "not_none (xs @ ys) = not_none xs @ not_none ys"
  by (induction xs rule: not_none.induct) auto

lemma row3_find:
  "find_neighbors row3 \<lparr>index = 0, props = ps, \<dots> = x\<rparr> full True True
     = Inr [\<lparr>index = 1, props = ps\<rparr>]"
  "find_neighbors row3 \<lparr>index = 1, props = ps, \<dots> = x\<rparr> full True True
     = Inr [\<lparr>index = 2, props = ps\<rparr>, \<lparr>index = 0, props = ps\<rparr>]"
  "find_neighbors row3 \<lparr>index = 2, props = ps, \<dots> = x\<rparr> full True True
     = Inr [\<lparr>index = 1, props = ps\<rparr>]"
  by (simp_all add: find_neighbors_def neighbor_indexes_def row3_faces Let_def not_none_append
      row_diagonals)
     (simp_all add: row3_def)

lemmas hood_defs = new_neighbors_def row3_find cand_def free_neighbors_def in_estimate_def
  not_neighbors_def in_tha_hood_def est0_def set_props_def seed_d_def seed_m_def dens_def magn_def
  ex_ops_def l1_ops_def props_effect_def vadd_def vsub_def vnorm1_def element.truncate_def

lemma run_init: "grow_init ex_ops row3 [seed_d, seed_m] [[0]] None = Inr st0"
  by (simp add: grow_init_def st0_def hood_defs)

lemma run_turn_d: "seed_turn ex_ops ex_jury row3 [seed_d, seed_m] 0 st0 0 = Inr (st1, True)"
  by (simp add: seed_turn_def st0_def jury_d) (simp add: st1_def est1_def hood_defs)

lemma run_turn_m: "seed_turn ex_ops ex_jury row3 [seed_d, seed_m] 0 st1 (Suc 0) = Inr (st2, True)"
  by (simp add: seed_turn_def st1_def jury_m) (simp add: st2_def est2_def est1_def hood_defs)

lemma row3_size: "msize row3 = 3"
  by (simp add: row3_def)

text \<open>
  C4. On the row of three cells with a density seed at cell 0 and a magnetization seed at
  cell 2, \<open>grow\<close> makes one pass (\<open>mesh.size - nseeds = 1\<close>), and in it both seeds add the
  cell 1, each for its own property: two accretions.
\<close>

theorem grow_two_accretions_in_one_pass:
  "grow ex_ops ex_jury row3 [seed_d, seed_m] [[0]] None = Inr st2
   \<and> length (accretions st2) = 2
   \<and> msize row3 - int (length [seed_d, seed_m]) = 1"
  by (simp add: grow_def run_init run_turn_d run_turn_m row3_size) (simp add: st2_def)

subsection \<open>Duplicate seeds\<close>













subsection \<open>Committed cells\<close>

lemma overlap_sym: "overlap a b = overlap b a"
  by (auto simp: overlap_def list_ex_iff)

lemma overlap_pairs: "overlap a b = (set (pairs_of a) \<inter> set (pairs_of b) \<noteq> {})"
  by (auto simp: overlap_def pairs_of_def list_ex_iff)

lemma in_tha_hood_overlap: "in_tha_hood hood n = (\<exists>tmp\<in>set (concat hood). overlap tmp n)"
proof -
  have "in_tha_hood hood n
      = (\<exists>ns\<in>set hood. \<exists>tmp\<in>set ns. index n = index tmp
            \<and> (\<exists>p\<in>set (keys n). p \<in> set (keys tmp)))"
    by (simp add: in_tha_hood_def keys_def list_ex_iff)
  also have "\<dots> = (\<exists>tmp\<in>set (concat hood). index tmp = index n
            \<and> (\<exists>p\<in>set (keys n). p \<in> set (keys tmp)))"
    by (simp only: set_concat) (blast intro: sym)
  also have "\<dots> = (\<exists>tmp\<in>set (concat hood). overlap tmp n)"
    by (simp add: overlap_def list_ex_iff)
  finally show ?thesis .
qed

lemma in_estimate_pairs: "in_estimate est n = (\<exists>(c, p)\<in>set (pairs_of n). est p c \<noteq> 0)"
  by (auto simp: in_estimate_def pairs_of_def keys_def list_ex_iff)

lemma fold_update_other:
  "\<not> (c = i \<and> p \<in> fst ` set ps)
     \<Longrightarrow> fold (\<lambda>(p, v) es. es(p := (es p)(i := v))) ps est p c = est p c"
  by (induction ps arbitrary: est) auto

lemma fold_update_nonzero:
  "\<forall>(q, v)\<in>set ps. v \<noteq> 0 \<Longrightarrow> p \<in> fst ` set ps \<or> est p i \<noteq> 0
     \<Longrightarrow> fold (\<lambda>(p, v) es. es(p := (es p)(i := v))) ps est p i \<noteq> (0::real)"
proof (induction ps arbitrary: est)
  case Nil
  then show ?case by simp
next
  case (Cons a ps)
  obtain q v where a: "a = (q, v)" by (cases a)
  let ?est = "est(q := (est q)(i := v))"
  from Cons.prems(1) a have v: "v \<noteq> 0" and r: "\<forall>(q, v)\<in>set ps. v \<noteq> 0" by auto
  have d: "p \<in> fst ` set ps \<or> ?est p i \<noteq> 0"
    using Cons.prems(2) a v by auto
  have "fold (\<lambda>(p, v) es. es(p := (es p)(i := v))) ps ?est p i \<noteq> 0"
    using r d by (rule Cons.IH)
  then show ?case by (simp add: a del: fun_upd_apply)
qed

lemma set_props_other:
  "(c, p) \<notin> set (pairs_of e) \<Longrightarrow> set_props est e p c = est p c"
  unfolding set_props_def
  by (rule fold_update_other) (auto simp: pairs_of_def keys_def)

lemma set_props_nonzero:
  "nonzero e \<Longrightarrow> (c, p) \<in> set (pairs_of e) \<Longrightarrow> set_props est e p c \<noteq> 0"
proof -
  assume n: "nonzero e" and m: "(c, p) \<in> set (pairs_of e)"
  from m have c: "c = index e" and p: "p \<in> fst ` set (props e)"
    by (auto simp: pairs_of_def keys_def)
  from n have "\<forall>(q, v)\<in>set (props e). v \<noteq> 0"
    by (simp add: nonzero_def list_all_iff)
  from fold_update_nonzero [OF this, of p est "index e"] p c
  show ?thesis by (simp add: set_props_def)
qed

lemma fold_set_props_nonzero:
  "\<forall>s\<in>set ss. nonzero s
     \<Longrightarrow> (\<exists>s\<in>set ss. (c, p) \<in> set (pairs_of s)) \<or> est p c \<noteq> 0
     \<Longrightarrow> fold (\<lambda>s es. set_props es s) ss est p c \<noteq> 0"
proof (induction ss arbitrary: est)
  case Nil
  then show ?case by simp
next
  case (Cons s ss)
  have "(\<exists>s\<in>set ss. (c, p) \<in> set (pairs_of s)) \<or> set_props est s p c \<noteq> 0"
  proof (cases "(c, p) \<in> set (pairs_of s)")
    case True
    with Cons.prems(1) show ?thesis by (simp add: set_props_nonzero)
  next
    case False
    with Cons.prems(2) show ?thesis by (auto simp: set_props_other)
  qed
  with Cons.IH [of "set_props est s"] Cons.prems(1) show ?case by simp
qed

text \<open>The face neighbours of a cell are different cells.\<close>

lemma distinct_faces:
  fixes a c n :: int
  assumes "0 < a" "a \<le> c" "p3 \<or> p4 \<Longrightarrow> 1 < a" "p5 \<or> p6 \<Longrightarrow> a < c"
  shows "distinct (not_none [if p1 then Some (n - c) else None, if p2 then Some (n + c) else None,
           if p3 then Some (n + 1) else None, if p4 then Some (n - 1) else None,
           if p5 then Some (n + a) else None, if p6 then Some (n - a) else None])"
  using assms by auto

lemma face_indexes_distinct:
  assumes "0 < nx m" "0 < ny m"
  shows "distinct (not_none (face_indexes m n up down))"
proof -
  define a where "a = nx m"
  define c where "c = a * ny m"
  have a: "0 < a" using assms by (simp add: a_def)
  have "a * 1 \<le> a * ny m" using assms a by (intro mult_left_mono) (simp_all add: a_def)
  then have ac: "a \<le> c" by (simp add: c_def)
  have c: "0 < c" using a ac by simp
  have f3: "1 < a" if "n mod a < a - 1 \<or> n mod a \<noteq> 0"
  proof -
    have "0 \<le> n mod a" using a by simp
    with that show ?thesis by (cases "a = 1") (use a in auto)
  qed
  have f5: "a < c" if "n mod c < a * (ny m - 1) \<or> a \<le> n mod c"
  proof -
    have m: "0 \<le> n mod c" "n mod c < c" using c by simp_all
    from that show ?thesis
    proof
      assume "n mod c < a * (ny m - 1)"
      with m have "0 < a * (ny m - 1)" by simp
      then have "0 < c - a" by (simp add: c_def algebra_simps)
      then show ?thesis by simp
    next
      assume "a \<le> n mod c"
      with m show ?thesis by simp
    qed
  qed
  show ?thesis
    unfolding face_indexes_def Let_def a_def [symmetric] c_def [symmetric]
    by (rule distinct_faces [OF a ac]) (use f3 f5 in auto)
qed

lemma neighbor_indexes_distinct:
  assumes "0 < nx m" "0 < ny m"
  shows "distinct (neighbor_indexes m n False up down)"
  using face_indexes_distinct [OF assms] by (simp add: neighbor_indexes_def)

lemma attach_neighbors_spec:
  "attach_neighbors m ns = Inr cs
     \<Longrightarrow> map (\<lambda>c. (index c, props c)) cs = map (\<lambda>n. (index n, props n)) ns"
proof (induction ns arbitrary: cs)
  case Nil
  then show ?case by auto
next
  case (Cons n ns)
  from Cons.prems obtain around cs' where
    "attach_neighbors m ns = Inr cs'"
    and cs: "cs = \<lparr>index = index n, props = props n, neighbors = around\<rparr> # cs'"
    by (auto split: sum.splits)
  with Cons.IH [of cs'] show ?case by simp
qed

lemma nonzero_cong: "props a = props b \<Longrightarrow> nonzero a = nonzero b"
  by (simp add: nonzero_def)

lemma in_estimate_cong:
  "index a = index b \<Longrightarrow> props a = props b \<Longrightarrow> in_estimate est a = in_estimate est b"
  by (simp add: in_estimate_def)

lemma in_tha_hood_cong:
  "index a = index b \<Longrightarrow> props a = props b \<Longrightarrow> in_tha_hood hood a = in_tha_hood hood b"
  by (simp add: in_tha_hood_def)

lemma distinct_index_no_overlap:
  "distinct (map index xs) \<Longrightarrow> sorted_wrt (\<lambda>a b. \<not> overlap a b) xs"
  by (induction xs) (auto simp: overlap_def)

text \<open>What enters a frontier: different cells, with the properties of the element they
  are the neighbours of, free in the estimate and overlapping nothing in the frontiers.\<close>

lemma new_neighbors_spec:
  assumes new: "new_neighbors m est hood e = Inr new" and dims: "0 < nx m" "0 < ny m"
  shows "distinct (map index new)"
    and "\<forall>n\<in>set new. props n = props e \<and> \<not> in_estimate est n
            \<and> (\<forall>x\<in>set (concat hood). \<not> overlap x n)"
proof -
  define ns where
    "ns = map (\<lambda>i. \<lparr>index = i, props = props e\<rparr>) (neighbor_indexes m (index e) False True True)"
  define fs where "fs = not_neighbors hood (free_neighbors est ns)"
  from new have f: "find_neighbors m e False True True = Inr ns"
    and a: "attach_neighbors m fs = Inr new"
    by (auto simp: new_neighbors_def find_neighbors_def ns_def fs_def split: sum.splits if_splits)
  note sp = attach_neighbors_spec [OF a]
  have "map index ns = neighbor_indexes m (index e) False True True"
    by (simp add: ns_def comp_def)
  then have "distinct (map index ns)"
    using neighbor_indexes_distinct [OF dims] by simp
  then have "distinct (map index fs)"
    by (simp add: fs_def not_neighbors_def free_neighbors_def distinct_map_filter)
  moreover have "map index new = map index fs"
    using arg_cong [OF sp, of "map fst"] by (simp add: comp_def)
  ultimately show "distinct (map index new)" by simp
  show "\<forall>n\<in>set new. props n = props e \<and> \<not> in_estimate est n
            \<and> (\<forall>x\<in>set (concat hood). \<not> overlap x n)"
  proof
    fix n assume "n \<in> set new"
    then have "(index n, props n) \<in> set (map (\<lambda>c. (index c, props c)) new)" by auto
    with sp have "(index n, props n) \<in> set (map (\<lambda>n. (index n, props n)) fs)" by simp
    then obtain x where x: "x \<in> set fs" "index n = index x" "props n = props x" by auto
    from x(1) have px: "props x = props e" and fr: "\<not> in_estimate est x"
      and nh: "\<not> in_tha_hood hood x"
      by (auto simp: fs_def not_neighbors_def free_neighbors_def ns_def)
    from fr have "\<not> in_estimate est n"
      by (simp add: in_estimate_cong [OF x(2,3), of est])
    moreover from nh have "\<not> in_tha_hood hood n"
      by (simp add: in_tha_hood_cong [OF x(2,3), of hood])
    then have "\<forall>y\<in>set (concat hood). \<not> overlap y n"
      unfolding in_tha_hood_overlap by blast
    ultimately show "props n = props e \<and> \<not> in_estimate est n
            \<and> (\<forall>x\<in>set (concat hood). \<not> overlap x n)"
      using x(3) px by simp
  qed
qed

text \<open>Taking an element out of a list without overlaps, and putting new ones in.\<close>

lemma no_overlap_remove:
  assumes "sorted_wrt (\<lambda>a b. \<not> overlap a b) (xs @ y # ys)"
  shows "sorted_wrt (\<lambda>a b. \<not> overlap a b) (xs @ ys)"
    and "\<forall>x\<in>set (xs @ ys). \<not> overlap x y"
proof -
  from assms show "sorted_wrt (\<lambda>a b. \<not> overlap a b) (xs @ ys)"
    by (simp add: sorted_wrt_append)
  from assms have "\<forall>x\<in>set xs. \<not> overlap x y" "\<forall>x\<in>set ys. \<not> overlap y x"
    by (simp_all add: sorted_wrt_append)
  then show "\<forall>x\<in>set (xs @ ys). \<not> overlap x y"
    using overlap_sym [of y] by auto
qed

lemma no_overlap_insert:
  assumes "sorted_wrt (\<lambda>a b. \<not> overlap a b) (xs @ ys)"
    and "sorted_wrt (\<lambda>a b. \<not> overlap a b) new"
    and "\<forall>n\<in>set new. \<forall>x\<in>set (xs @ ys). \<not> overlap x n"
  shows "sorted_wrt (\<lambda>a b. \<not> overlap a b) (xs @ new @ ys)"
proof -
  from assms(3) have "\<forall>n\<in>set new. \<forall>x\<in>set ys. \<not> overlap n x"
    using overlap_sym by fastforce
  with assms show ?thesis
    by (simp add: sorted_wrt_append) blast
qed

lemma hood_concat_update:
  "k < length hood \<Longrightarrow> concat (hood[k := xs]) = concat (take k hood) @ xs @ concat (drop (Suc k) hood)"
  by (simp add: upd_conv_take_nth_drop)

lemma hood_concat_nth:
  "k < length hood \<Longrightarrow> concat hood = concat (take k hood) @ hood ! k @ concat (drop (Suc k) hood)"
  using hood_concat_update [of k hood "hood ! k"] by simp

lemma free_after_set_props:
  assumes "\<not> in_estimate est x" "\<not> overlap x best"
  shows "\<not> in_estimate (set_props est best) x"
proof -
  have "set_props est best p c = est p c" if "(c, p) \<in> set (pairs_of x)" for c p
  proof -
    from assms(2) that have "(c, p) \<notin> set (pairs_of best)"
      unfolding overlap_pairs by blast
    then show ?thesis by (rule set_props_other)
  qed
  with assms(1) show ?thesis
    unfolding in_estimate_pairs by auto
qed

lemma free_not_set:
  "\<not> in_estimate est best \<Longrightarrow> est p c \<noteq> 0 \<Longrightarrow> (c, p) \<notin> set (pairs_of best)"
  unfolding in_estimate_pairs by auto

lemma committed_append:
  "accretions st' = accretions st @ [(k, c)]
     \<Longrightarrow> committed seeds st' k' = committed seeds st k' @ (if k = k' then pairs_of c else [])"
  by (simp add: committed_def)

lemma init_neighborhood_spec:
  assumes "init_neighborhood m est ss hood0 = Inr hood"
    and dims: "0 < nx m" "0 < ny m"
    and "\<forall>s\<in>set ss. nonzero s"
    and "sorted_wrt (\<lambda>a b. \<not> overlap a b) (concat hood0)"
    and "\<forall>n\<in>set (concat hood0). nonzero n \<and> \<not> in_estimate est n"
  shows "length hood = length hood0 + length ss
     \<and> sorted_wrt (\<lambda>a b. \<not> overlap a b) (concat hood)
     \<and> (\<forall>n\<in>set (concat hood). nonzero n \<and> \<not> in_estimate est n)"
  using assms(1,4,5,6)
proof (induction ss arbitrary: hood0)
  case Nil
  then show ?case by simp
next
  case (Cons s ss)
  from Cons.prems(1) obtain ns where n: "new_neighbors m est hood0 s = Inr ns"
    and r: "init_neighborhood m est ss (hood0 @ [ns]) = Inr hood"
    by (auto split: sum.splits)
  note sp = new_neighbors_spec [OF n dims]
  from Cons.prems(2) have nz: "nonzero s" and nzs: "\<forall>s\<in>set ss. nonzero s" by simp_all
  have c: "concat (hood0 @ [ns]) = concat hood0 @ ns" by simp
  have s: "sorted_wrt (\<lambda>a b. \<not> overlap a b) (concat (hood0 @ [ns]))"
    unfolding c sorted_wrt_append
    using Cons.prems(3) distinct_index_no_overlap [OF sp(1)] sp(2) by blast
  have f: "\<forall>n\<in>set (concat (hood0 @ [ns])). nonzero n \<and> \<not> in_estimate est n"
  proof
    fix x assume "x \<in> set (concat (hood0 @ [ns]))"
    then consider "x \<in> set (concat hood0)" | "x \<in> set ns" unfolding c by auto
    then show "nonzero x \<and> \<not> in_estimate est x"
    proof cases
      case 1
      with Cons.prems(4) show ?thesis by blast
    next
      case 2
      with sp(2) have "props x = props s" "\<not> in_estimate est x" by blast+
      with nz show ?thesis by (simp add: nonzero_cong [of x s])
    qed
  qed
  from Cons.IH [OF r nzs s f] show ?case by simp
qed

text \<open>The invariant holds in the first state.\<close>

lemma grow_inv_first:
  assumes init: "grow_init ops m seeds dms rg = Inr st"
    and dims: "0 < nx m" "0 < ny m"
    and apart: "\<forall>i j. i < j \<and> j < length seeds \<longrightarrow> \<not> overlap (seeds ! i) (seeds ! j)"
    and nz: "\<forall>s\<in>set seeds. nonzero s"
  shows "grow_inv seeds st"
proof -
  define est where "est = fold (\<lambda>s es. set_props es s) seeds (\<lambda>p i. 0)"
  from init obtain hood where h: "init_neighborhood m est seeds [] = Inr hood"
    and e: "estimate st = est" and n: "neighborhood st = hood" and a: "accretions st = []"
    by (auto simp: grow_init_def Let_def est_def split: sum.splits)
  from init_neighborhood_spec [OF h dims nz] have
    h1: "length hood = length seeds"
    and h2: "sorted_wrt (\<lambda>a b. \<not> overlap a b) (concat hood)"
    and h3: "\<forall>n\<in>set (concat hood). nonzero n \<and> \<not> in_estimate est n"
    by simp_all
  have c: "committed seeds st k = pairs_of (seeds ! k)" for k
    by (simp add: committed_def a)
  have h4: "\<forall>k<length seeds. \<forall>(c, p)\<in>set (committed seeds st k). est p c \<noteq> 0"
  proof (intro allI impI ballI)
    fix k x assume k: "k < length seeds" and x: "x \<in> set (committed seeds st k)"
    obtain c' p where xp: "x = (c', p)" by (cases x)
    from k have "seeds ! k \<in> set seeds" by simp
    with x xp have "\<exists>s\<in>set seeds. (c', p) \<in> set (pairs_of s)"
      unfolding c by blast
    then have "est p c' \<noteq> 0"
      unfolding est_def using nz by (intro fold_set_props_nonzero) simp_all
    with xp show "case x of (c, p) \<Rightarrow> est p c \<noteq> 0" by simp
  qed
  have h5: "\<forall>k<length seeds. \<forall>k'<length seeds. k \<noteq> k'
           \<longrightarrow> set (committed seeds st k) \<inter> set (committed seeds st k') = {}"
  proof (intro allI impI)
    fix k k' assume k: "k < length seeds" "k' < length seeds" "k \<noteq> k'"
    have "\<not> overlap (seeds ! k) (seeds ! k')"
    proof (cases "k < k'")
      case True
      with apart k show ?thesis by blast
    next
      case False
      with k have "k' < k" by simp
      with apart k have "\<not> overlap (seeds ! k') (seeds ! k)" by blast
      then show ?thesis by (simp add: overlap_sym [of "seeds ! k"])
    qed
    then show "set (committed seeds st k) \<inter> set (committed seeds st k') = {}"
      unfolding c overlap_pairs by simp
  qed
  from h1 h2 h3 h4 h5 show ?thesis
    unfolding grow_inv_def e n by (intro conjI)
qed

lemma seed_turn_cases:
  assumes "seed_turn ops jury m seeds it st k = Inr (st', grew)"
  shows "(\<exists>rg. st' = st\<lparr>jury_regularizer := rg\<rparr>)
     \<or> (\<exists>j new. j < length (neighborhood st ! k)
          \<and> new_neighbors m (set_props (estimate st) (neighborhood st ! k ! j))
               ((neighborhood st)[k := take j (neighborhood st ! k)
                                        @ drop (Suc j) (neighborhood st ! k)])
               (neighborhood st ! k ! j) = Inr new
          \<and> estimate st' = set_props (estimate st) (neighborhood st ! k ! j)
          \<and> neighborhood st'
              = (neighborhood st)[k := (take j (neighborhood st ! k)
                                        @ drop (Suc j) (neighborhood st ! k)) @ new]
          \<and> accretions st' = accretions st @ [(k, neighborhood st ! k ! j)])"
proof -
  define nbs where "nbs = neighborhood st ! k"
  define res where "res = jury (jury_regularizer st) (seeds ! k) nbs (estimate st) (datamods st)
      (goal st) m it (int (length seeds))"
  from assms obtain ch rg where r: "res = Inr (ch, rg)"
    by (cases res) (auto simp: seed_turn_def Let_def res_def nbs_def)
  show ?thesis
  proof (cases ch)
    case None
    with assms r have "st' = st\<lparr>jury_regularizer := rg\<rparr>"
      by (simp add: seed_turn_def Let_def res_def [symmetric] nbs_def [symmetric])
    then show ?thesis by blast
  next
    case (Some jg)
    obtain j g where jg: "jg = (j, g)" by (cases jg)
    define best where "best = nbs ! j"
    define rest where "rest = take j nbs @ drop (Suc j) nbs"
    define nn where
      "nn = new_neighbors m (set_props (estimate st) best) ((neighborhood st)[k := rest]) best"
    from assms r Some jg have j: "j < length nbs"
      by (auto simp: seed_turn_def Let_def res_def [symmetric] nbs_def [symmetric]
          split: if_splits)
    from assms r Some jg j obtain new where new: "nn = Inr new"
      by (cases nn)
         (auto simp: seed_turn_def Let_def res_def [symmetric] nbs_def [symmetric]
           nn_def best_def rest_def)
    from assms r Some jg j new have
      st': "st' = st\<lparr>estimate := set_props (estimate st) best,
                      neighborhood := (neighborhood st)[k := rest @ new],
                      goal := g,
                      datamods := map (\<lambda>d. dm_update ops d (element.truncate best)) (datamods st),
                      jury_regularizer := rg,
                      accretions := accretions st @ [(k, best)]\<rparr>"
      by (simp add: seed_turn_def Let_def res_def [symmetric] nbs_def [symmetric]
          nn_def [symmetric] best_def [symmetric] rest_def [symmetric])
    have "j < length (neighborhood st ! k)
          \<and> new_neighbors m (set_props (estimate st) (neighborhood st ! k ! j))
               ((neighborhood st)[k := take j (neighborhood st ! k)
                                        @ drop (Suc j) (neighborhood st ! k)])
               (neighborhood st ! k ! j) = Inr new
          \<and> estimate st' = set_props (estimate st) (neighborhood st ! k ! j)
          \<and> neighborhood st'
              = (neighborhood st)[k := (take j (neighborhood st ! k)
                                        @ drop (Suc j) (neighborhood st ! k)) @ new]
          \<and> accretions st' = accretions st @ [(k, neighborhood st ! k ! j)]"
      using j new st' by (simp add: nn_def best_def rest_def nbs_def)
    then show ?thesis by blast
  qed
qed

text \<open>The invariant is kept by the turn of a seed.\<close>

lemma grow_inv_turn:
  assumes inv: "grow_inv seeds st"
    and k: "k < length seeds"
    and turn: "seed_turn ops jury m seeds it st k = Inr (st', grew)"
    and dims: "0 < nx m" "0 < ny m"
  shows "grow_inv seeds st'"
proof -
  define hood where "hood = neighborhood st"
  define est where "est = estimate st"
  from inv have len: "length hood = length seeds"
    and sw: "sorted_wrt (\<lambda>a b. \<not> overlap a b) (concat hood)"
    and fr: "\<forall>n\<in>set (concat hood). nonzero n \<and> \<not> in_estimate est n"
    and nz: "\<forall>k<length seeds. \<forall>(c, p)\<in>set (committed seeds st k). est p c \<noteq> 0"
    and dj: "\<forall>k<length seeds. \<forall>k'<length seeds. k \<noteq> k'
           \<longrightarrow> set (committed seeds st k) \<inter> set (committed seeds st k') = {}"
    by (simp_all add: grow_inv_def hood_def est_def)
  from seed_turn_cases [OF turn] show ?thesis
  proof
    assume "\<exists>rg. st' = st\<lparr>jury_regularizer := rg\<rparr>"
    then obtain rg where "st' = st\<lparr>jury_regularizer := rg\<rparr>" by blast
    with inv show ?thesis by (simp add: grow_inv_def committed_def)
  next
    assume "\<exists>j new. j < length (neighborhood st ! k)
          \<and> new_neighbors m (set_props (estimate st) (neighborhood st ! k ! j))
               ((neighborhood st)[k := take j (neighborhood st ! k)
                                        @ drop (Suc j) (neighborhood st ! k)])
               (neighborhood st ! k ! j) = Inr new
          \<and> estimate st' = set_props (estimate st) (neighborhood st ! k ! j)
          \<and> neighborhood st'
              = (neighborhood st)[k := (take j (neighborhood st ! k)
                                        @ drop (Suc j) (neighborhood st ! k)) @ new]
          \<and> accretions st' = accretions st @ [(k, neighborhood st ! k ! j)]"
    then obtain j new where j0: "j < length (hood ! k)"
      and new0: "new_neighbors m (set_props est (hood ! k ! j))
               (hood[k := take j (hood ! k) @ drop (Suc j) (hood ! k)]) (hood ! k ! j) = Inr new"
      and e0: "estimate st' = set_props est (hood ! k ! j)"
      and h0: "neighborhood st' = hood[k := (take j (hood ! k) @ drop (Suc j) (hood ! k)) @ new]"
      and a0: "accretions st' = accretions st @ [(k, hood ! k ! j)]"
      unfolding hood_def est_def by blast
    define nbs where "nbs = hood ! k"
    define best where "best = nbs ! j"
    define rest where "rest = take j nbs @ drop (Suc j) nbs"
    define A where "A = concat (take k hood)"
    define B where "B = concat (drop (Suc k) hood)"
    define est' where "est' = set_props est best"
    note j = j0 [folded nbs_def]
    note new = new0 [folded nbs_def, folded best_def rest_def, folded est'_def]
    note e = e0 [folded nbs_def, folded best_def, folded est'_def]
    note h = h0 [folded nbs_def, folded rest_def]
    note a = a0 [folded nbs_def, folded best_def]
    from k len have kl: "k < length hood" by simp
    have c0: "concat hood = A @ nbs @ B"
      unfolding A_def B_def nbs_def by (rule hood_concat_nth [OF kl])
    have nb: "nbs = take j nbs @ best # drop (Suc j) nbs"
      unfolding best_def by (rule id_take_nth_drop [OF j])
    have c1: "concat hood = (A @ take j nbs) @ best # (drop (Suc j) nbs @ B)"
    proof -
      have "A @ nbs @ B = A @ (take j nbs @ best # drop (Suc j) nbs) @ B"
        using nb by simp
      then show ?thesis by (simp add: c0)
    qed
    have c2: "concat (hood[k := rest]) = (A @ rest) @ B"
      by (simp add: hood_concat_update [OF kl] A_def B_def)
    have c3: "concat (hood[k := rest @ new]) = (A @ rest) @ new @ B"
      by (simp add: hood_concat_update [OF kl] A_def B_def)
    have c4: "(A @ take j nbs) @ (drop (Suc j) nbs @ B) = (A @ rest) @ B"
      by (simp add: rest_def)
    from sw have "sorted_wrt (\<lambda>a b. \<not> overlap a b) ((A @ take j nbs) @ best # (drop (Suc j) nbs @ B))"
      unfolding c1 .
    note rm = no_overlap_remove [OF this, unfolded c4]
    have bm: "best \<in> set (concat hood)" unfolding c1 by simp
    with fr have bz: "nonzero best" and bf: "\<not> in_estimate est best" by blast+
    have old: "set ((A @ rest) @ B) \<subseteq> set (concat hood)"
      unfolding c4 [symmetric] c1 by auto
    note sp = new_neighbors_spec [OF new dims, unfolded c2]
    have s3: "sorted_wrt (\<lambda>a b. \<not> overlap a b) ((A @ rest) @ new @ B)"
      using rm(1) distinct_index_no_overlap [OF sp(1)] sp(2)
      by (intro no_overlap_insert) blast+
    have i1: "length (neighborhood st') = length seeds"
      by (simp add: h len)
    have i2: "sorted_wrt (\<lambda>a b. \<not> overlap a b) (concat (neighborhood st'))"
      unfolding h c3 by (rule s3)
    have i3: "\<forall>n\<in>set (concat (neighborhood st')). nonzero n \<and> \<not> in_estimate (estimate st') n"
    proof
      fix x assume "x \<in> set (concat (neighborhood st'))"
      then consider "x \<in> set ((A @ rest) @ B)" | "x \<in> set new"
        unfolding h c3 by auto
      then show "nonzero x \<and> \<not> in_estimate (estimate st') x"
      proof cases
        case 1
        with old fr have "nonzero x" "\<not> in_estimate est x" by blast+
        moreover from 1 rm(2) have "\<not> overlap x best" by blast
        ultimately show ?thesis
          unfolding e est'_def by (simp add: free_after_set_props)
      next
        case 2
        with sp(2) have "props x = props best" "\<not> in_estimate est' x" by blast+
        with bz show ?thesis
          unfolding e by (simp add: nonzero_cong [of x best])
      qed
    qed
    have fresh: "(c, p) \<notin> set (pairs_of best)"
      if "k' < length seeds" "(c, p) \<in> set (committed seeds st k')" for k' c p
    proof -
      from nz that have "est p c \<noteq> 0" by blast
      with bf show ?thesis by (rule free_not_set)
    qed
    note ca = committed_append [OF a]
    have i4: "\<forall>k<length seeds. \<forall>(c, p)\<in>set (committed seeds st' k). estimate st' p c \<noteq> 0"
    proof (intro allI impI ballI)
      fix k' x assume k': "k' < length seeds" and x: "x \<in> set (committed seeds st' k')"
      obtain c p where xp: "x = (c, p)" by (cases x)
      from x xp consider "(c, p) \<in> set (committed seeds st k')" | "(c, p) \<in> set (pairs_of best)"
        unfolding ca by (auto split: if_splits)
      then have "est' p c \<noteq> 0"
      proof cases
        case 1
        from fresh [OF k' 1] have "est' p c = est p c"
          unfolding est'_def by (rule set_props_other)
        moreover from nz k' 1 have "est p c \<noteq> 0" by blast
        ultimately show ?thesis by simp
      next
        case 2
        with bz show ?thesis unfolding est'_def by (rule set_props_nonzero)
      qed
      with xp show "case x of (c, p) \<Rightarrow> estimate st' p c \<noteq> 0"
        by (simp add: e)
    qed
    have i5: "\<forall>k<length seeds. \<forall>k'<length seeds. k \<noteq> k'
           \<longrightarrow> set (committed seeds st' k) \<inter> set (committed seeds st' k') = {}"
    proof (intro allI impI)
      fix k1 k2 assume kk: "k1 < length seeds" "k2 < length seeds" "k1 \<noteq> k2"
      from dj kk have d: "set (committed seeds st k1) \<inter> set (committed seeds st k2) = {}"
        by blast
      have f1: "set (committed seeds st k1) \<inter> set (pairs_of best) = {}"
        using fresh [OF kk(1)] by auto
      have f2: "set (committed seeds st k2) \<inter> set (pairs_of best) = {}"
        using fresh [OF kk(2)] by auto
      from kk(3) d f1 f2 show "set (committed seeds st' k1) \<inter> set (committed seeds st' k2) = {}"
        unfolding ca by (auto split: if_splits)
    qed
    from i1 i2 i3 i4 i5 show ?thesis
      unfolding grow_inv_def by (intro conjI)
  qed
qed

lemma reachable_grow_inv:
  assumes "reachable ops jury m seeds st"
    and dims: "0 < nx m" "0 < ny m"
    and apart: "\<forall>i j. i < j \<and> j < length seeds \<longrightarrow> \<not> overlap (seeds ! i) (seeds ! j)"
    and nz: "\<forall>s\<in>set seeds. nonzero s"
  shows "grow_inv seeds st"
  using assms(1)
proof (induction rule: reachable.induct)
  case (first dms rg st)
  then show ?case by (rule grow_inv_first [OF _ dims apart nz])
next
  case (turn st k it st' grew)
  from turn.IH turn.hyps(2,3) dims show ?case by (rule grow_inv_turn)
qed

lemma run_reachable: "reachable ex_ops ex_jury row3 [seed_d, seed_m] st2"
proof -
  have "reachable ex_ops ex_jury row3 [seed_d, seed_m] st0"
    by (rule reachable.first [OF run_init])
  then have "reachable ex_ops ex_jury row3 [seed_d, seed_m] st1"
    by (rule reachable.turn [OF _ _ run_turn_d]) simp
  then show ?thesis
    by (rule reachable.turn [OF _ _ run_turn_m]) simp
qed

text \<open>
  C2, as the code has it. When the mesh has a positive number of cells along x and y, no
  two seeds have a cell and a property name in common (the test of \<open>sow\<close>) and no
  property value of a seed is zero, then in every state that \<open>grow\<close> reaches, no pair of
  cell and property name is committed by two seeds, and no entry of any frontier has a
  pair of cell and property name that a seed has committed. A cell can be committed by
  two seeds, for different properties.
\<close>

theorem committed_pairs_disjoint:
  assumes "reachable ops jury m seeds st"
    and "0 < nx m" and "0 < ny m"
    and "\<forall>i j. i < j \<and> j < length seeds \<longrightarrow> \<not> overlap (seeds ! i) (seeds ! j)"
    and "\<forall>s\<in>set seeds. nonzero s"
    and "k < length seeds" and "k' < length seeds" and "k \<noteq> k'"
  shows "set (committed seeds st k) \<inter> set (committed seeds st k') = {}
     \<and> (\<forall>n\<in>set (concat (neighborhood st)). set (pairs_of n) \<inter> set (committed seeds st k) = {})"
proof -
  from reachable_grow_inv [OF assms(1-5)] have
    fr: "\<forall>n\<in>set (concat (neighborhood st)). \<not> in_estimate (estimate st) n"
    and nz: "\<forall>k<length seeds. \<forall>(c, p)\<in>set (committed seeds st k). estimate st p c \<noteq> 0"
    and dj: "\<forall>k<length seeds. \<forall>k'<length seeds. k \<noteq> k'
           \<longrightarrow> set (committed seeds st k) \<inter> set (committed seeds st k') = {}"
    by (simp_all add: grow_inv_def)
  from dj assms(6-8) have "set (committed seeds st k) \<inter> set (committed seeds st k') = {}"
    by blast
  moreover have "\<forall>n\<in>set (concat (neighborhood st)).
      set (pairs_of n) \<inter> set (committed seeds st k) = {}"
  proof
    fix n assume "n \<in> set (concat (neighborhood st))"
    with fr have f: "\<not> in_estimate (estimate st) n" by blast
    have "(c, p) \<notin> set (pairs_of n)" if "(c, p) \<in> set (committed seeds st k)" for c p
    proof -
      from nz assms(6) that have "estimate st p c \<noteq> 0" by blast
      with f show ?thesis by (rule free_not_set)
    qed
    then show "set (pairs_of n) \<inter> set (committed seeds st k) = {}" by auto
  qed
  ultimately show ?thesis by simp
qed

theorem committed_pairs_disjoint_witness:
  "reachable ex_ops ex_jury row3 [seed_d, seed_m] st2
   \<and> committed [seed_d, seed_m] st2 0 = [(0, ''density''), (1, ''density'')]
   \<and> committed [seed_d, seed_m] st2 1 = [(2, ''magnetization''), (1, ''magnetization'')]
   \<and> set (committed [seed_d, seed_m] st2 0) \<inter> set (committed [seed_d, seed_m] st2 1) = {}"
proof -
  have d: "0 < nx row3" "0 < ny row3" by (simp_all add: row3_def)
  have ap: "\<forall>i j. i < j \<and> j < length [seed_d, seed_m]
      \<longrightarrow> \<not> overlap ([seed_d, seed_m] ! i) ([seed_d, seed_m] ! j)"
    by (auto simp: less_Suc_eq overlap_def seed_d_def seed_m_def)
  have nz: "\<forall>s\<in>set [seed_d, seed_m]. nonzero s"
    by (simp add: nonzero_def seed_d_def seed_m_def dens_def magn_def)
  have k: "0 < length [seed_d, seed_m]" "Suc 0 < length [seed_d, seed_m]" "0 \<noteq> Suc 0"
    by simp_all
  have c0: "committed [seed_d, seed_m] st2 0 = [(0, ''density''), (1, ''density'')]"
    by (simp add: committed_def st2_def pairs_of_def keys_def seed_d_def cand_def dens_def)
  have c1: "committed [seed_d, seed_m] st2 (Suc 0) = [(2, ''magnetization''), (1, ''magnetization'')]"
    by (simp add: committed_def st2_def pairs_of_def keys_def seed_m_def cand_def magn_def)
  from committed_pairs_disjoint [OF run_reachable d ap nz k] run_reachable c0 c1
  show ?thesis by simp
qed

lemmas zjury_defs = z_jury_def z_ops_def l1_ops_def props_effect_def standard_jury_def
  total_misfit_def rel_change_ge_def vadd_def vsub_def vnorm1_def Let_def zero_dens_def dens3_def
  cand_def

lemmas zhood_defs = new_neighbors_def row3_find cand_def free_neighbors_def in_estimate_def
  not_neighbors_def in_tha_hood_def zest0_def set_props_def seed_z_def seed_3_def zero_dens_def
  dens3_def z_ops_def l1_ops_def props_effect_def vadd_def vsub_def vnorm1_def
  element.truncate_def

lemma jury_z:
  "z_jury None seed_z [cand 2 zero_dens [1]] zest0 [[8]] 12 row3 0 2 = Inr (Some (0, 7), None)"
  by (simp add: zjury_defs)

lemma jury_3:
  "z_jury None seed_3 [cand 1 dens3 [2, 0]] zest1 [[13]] 7 row3 0 2 = Inr (Some (0, 4), None)"
  by (simp add: zjury_defs)

lemma zrun_init: "grow_init z_ops row3 [seed_z, seed_3] [[0]] None = Inr zst0"
  by (simp add: grow_init_def zst0_def zhood_defs)

lemma zrun_turn_z: "seed_turn z_ops z_jury row3 [seed_z, seed_3] 0 zst0 0 = Inr (zst1, True)"
  by (simp add: seed_turn_def zst0_def jury_z) (simp add: zst1_def zest1_def zhood_defs)

lemma zrun_turn_3:
  "seed_turn z_ops z_jury row3 [seed_z, seed_3] 0 zst1 (Suc 0) = Inr (zst2, True)"
  by (simp add: seed_turn_def zst1_def jury_3) (simp add: zst2_def zest2_def zest1_def zhood_defs)

lemma zrun_reachable: "reachable z_ops z_jury row3 [seed_z, seed_3] zst2"
proof -
  have "reachable z_ops z_jury row3 [seed_z, seed_3] zst0"
    by (rule reachable.first [OF zrun_init])
  then have "reachable z_ops z_jury row3 [seed_z, seed_3] zst1"
    by (rule reachable.turn [OF _ _ zrun_turn_z]) simp
  then show ?thesis
    by (rule reachable.turn [OF _ _ zrun_turn_3]) simp
qed

text \<open>
  C2, as the claim states it, fails when a property value is zero. The seed at cell 1 has
  the density zero, which the estimate does not tell from a free cell: the density seed
  at cell 0 takes cell 1 into its frontier and commits it, so the pair of cell 1 and
  \<open>density\<close> is committed by both seeds. \<open>sow\<close> accepts the two seeds.
\<close>

theorem zero_value_committed_twice:
  "grow z_ops z_jury row3 [seed_z, seed_3] [[0]] None = Inr zst2
   \<and> reachable z_ops z_jury row3 [seed_z, seed_3] zst2
   \<and> \<not> overlap seed_z seed_3
   \<and> committed [seed_z, seed_3] zst2 0
       = [(1, ''density''), (1, ''magnetization''), (2, ''density''), (2, ''magnetization'')]
   \<and> committed [seed_z, seed_3] zst2 1 = [(0, ''density''), (1, ''density'')]"
proof -
  have g: "grow z_ops z_jury row3 [seed_z, seed_3] [[0]] None = Inr zst2"
    by (simp add: grow_def zrun_init zrun_turn_z zrun_turn_3 row3_size)
  have o: "\<not> overlap seed_z seed_3"
    by (simp add: overlap_def seed_z_def seed_3_def)
  have c0: "committed [seed_z, seed_3] zst2 0
       = [(1, ''density''), (1, ''magnetization''), (2, ''density''), (2, ''magnetization'')]"
    by (simp add: committed_def zst2_def pairs_of_def keys_def seed_z_def cand_def zero_dens_def)
  have c1: "committed [seed_z, seed_3] zst2 1 = [(0, ''density''), (1, ''density'')]"
    by (simp add: committed_def zst2_def pairs_of_def keys_def seed_3_def cand_def dens3_def)
  from g zrun_reachable o c0 c1 show ?thesis by (intro conjI)
qed

end
